theory Spec2Isabelle
  imports Main
begin

section \<open>Strings and character classes\<close>

text \<open>
  A JavaScript string is a sequence of UTF-16 code units; \<open>length\<close> counts code units.
  The model uses \<^typ>\<open>string\<close> and reads each \<^typ>\<open>char\<close> as one code unit in the range
  U+0000 .. U+00FF, so \<^term>\<open>length s\<close> is the JavaScript \<open>s.length\<close> for every text
  made of such code units.
\<close>

text \<open>\<open>\d\<close>: the ten ASCII digits.\<close>

definition digits :: string where
  "digits = ''0123456789''"

definition is_digit :: "char \<Rightarrow> bool" where
  "is_digit c = (c \<in> set digits)"

text \<open>\<open>\w\<close>, as used by \<open>\b\<close>: ASCII letters, digits and the underscore.\<close>

definition lower_letters :: string where
  "lower_letters = ''abcdefghijklmnopqrstuvwxyz''"

definition upper_letters :: string where
  "upper_letters = ''ABCDEFGHIJKLMNOPQRSTUVWXYZ''"

definition is_word_char :: "char \<Rightarrow> bool" where
  "is_word_char c = (c \<in> set (lower_letters @ upper_letters @ digits @ ''_''))"

text \<open>
  \<open>\s\<close> and the characters removed by \<open>trim\<close>: white space and line terminators. Below
  U+0100 these are TAB, LF, VT, FF, CR, SPACE and NO-BREAK SPACE.
\<close>

definition is_space :: "char \<Rightarrow> bool" where
  "is_space c =
     (c \<in> set [CHR 0x09, CHR 0x0A, CHR 0x0B, CHR 0x0C, CHR 0x0D, CHR 0x20, CHR 0xA0])"

text \<open>The dot of a pattern without the \<open>s\<close> flag: every character but a line terminator.\<close>

definition is_line_terminator :: "char \<Rightarrow> bool" where
  "is_line_terminator c = (c \<in> set [CHR 0x0A, CHR 0x0D])"

text \<open>
  \<open>String.prototype.toLowerCase\<close> on code units below U+0100: \<open>A\<close>..\<open>Z\<close> and the Latin-1
  capitals U+00C0 .. U+00DE (the multiplication sign U+00D7 apart) map to the letter 32
  code units above; every other code unit is kept.
\<close>

definition latin1_upper :: string where
  "latin1_upper =
     [CHR 0xC0, CHR 0xC1, CHR 0xC2, CHR 0xC3, CHR 0xC4, CHR 0xC5, CHR 0xC6, CHR 0xC7,
      CHR 0xC8, CHR 0xC9, CHR 0xCA, CHR 0xCB, CHR 0xCC, CHR 0xCD, CHR 0xCE, CHR 0xCF,
      CHR 0xD0, CHR 0xD1, CHR 0xD2, CHR 0xD3, CHR 0xD4, CHR 0xD5, CHR 0xD6,
      CHR 0xD8, CHR 0xD9, CHR 0xDA, CHR 0xDB, CHR 0xDC, CHR 0xDD, CHR 0xDE]"

definition latin1_lower :: string where
  "latin1_lower =
     [CHR 0xE0, CHR 0xE1, CHR 0xE2, CHR 0xE3, CHR 0xE4, CHR 0xE5, CHR 0xE6, CHR 0xE7,
      CHR 0xE8, CHR 0xE9, CHR 0xEA, CHR 0xEB, CHR 0xEC, CHR 0xED, CHR 0xEE, CHR 0xEF,
      CHR 0xF0, CHR 0xF1, CHR 0xF2, CHR 0xF3, CHR 0xF4, CHR 0xF5, CHR 0xF6,
      CHR 0xF8, CHR 0xF9, CHR 0xFA, CHR 0xFB, CHR 0xFC, CHR 0xFD, CHR 0xFE]"

definition lower_char :: "char \<Rightarrow> char" where
  "lower_char c =
     (case map_of (zip (upper_letters @ latin1_upper) (lower_letters @ latin1_lower)) c of
        None \<Rightarrow> c
      | Some l \<Rightarrow> l)"

definition toLowerCase :: "string \<Rightarrow> string" where
  "toLowerCase s = map lower_char s"

section \<open>The pattern matcher\<close>

text \<open>
  The patterns of the source use literals, character classes, alternation, greedy and lazy
  repetition of a single character class, \<open>\b\<close>, \<open>$\<close>, and negative lookbehind and
  lookahead. A position in the subject is a pair: the text before it, reversed, and the text
  from it on. Matching returns the positions where a match can end, in the order in which a
  backtracking matcher tries them; the first one is the match.
\<close>

datatype cclass = Lit char | NotLit char | Digit | Dot | AnyChar | Space

fun in_class :: "cclass \<Rightarrow> char \<Rightarrow> bool" where
  "in_class (Lit a) c = (c = a)"
| "in_class (NotLit a) c = (c \<noteq> a)"
| "in_class Digit c = is_digit c"
| "in_class Dot c = (\<not> is_line_terminator c)"
| "in_class AnyChar c = True"
| "in_class Space c = is_space c"

datatype re =
    Eps
  | Atom cclass
  | Seq re re
  | Alt re re
  | Star cclass
  | StarLazy cclass
  | WordB
  | EndInput
  | NotBehind re
  | NotAhead re

datatype dir = Fwd | Bwd

type_synonym pos = "string \<times> string"

text \<open>
  \<open>runs cl a b\<close>: move characters of class \<open>cl\<close> from the front of \<open>b\<close> to the front of
  \<open>a\<close>, none first, then one, and so on while they are in the class.
\<close>

fun runs :: "cclass \<Rightarrow> string \<Rightarrow> string \<Rightarrow> (string \<times> string) list" where
  "runs cl a [] = [(a, [])]"
| "runs cl a (c # b) = (a, c # b) # (if in_class cl c then runs cl (c # a) b else [])"

fun swap_pos :: "string \<times> string \<Rightarrow> string \<times> string" where
  "swap_pos (a, b) = (b, a)"

fun star_states :: "dir \<Rightarrow> cclass \<Rightarrow> pos \<Rightarrow> pos list" where
  "star_states Fwd cl (pre, suf) = runs cl pre suf"
| "star_states Bwd cl (pre, suf) = map swap_pos (runs cl suf pre)"

fun step :: "dir \<Rightarrow> pos \<Rightarrow> (char \<times> pos) option" where
  "step Fwd (pre, []) = None"
| "step Fwd (pre, c # suf) = Some (c, (c # pre, suf))"
| "step Bwd ([], suf) = None"
| "step Bwd (c # pre, suf) = Some (c, (pre, c # suf))"

fun word_before :: "pos \<Rightarrow> bool" where
  "word_before ([], suf) = False"
| "word_before (c # pre, suf) = is_word_char c"

fun word_after :: "pos \<Rightarrow> bool" where
  "word_after (pre, []) = False"
| "word_after (pre, c # suf) = is_word_char c"

definition is_boundary :: "pos \<Rightarrow> bool" where
  "is_boundary p = (word_before p \<noteq> word_after p)"

text \<open>
  A sequence is matched left to right in a forward match and right to left inside a
  lookbehind. A lookahead always matches forward and a lookbehind always backward.
\<close>

fun ends :: "dir \<Rightarrow> re \<Rightarrow> pos \<Rightarrow> pos list" where
  "ends d Eps p = [p]"
| "ends d (Atom cl) p =
     (case step d p of
        None \<Rightarrow> []
      | Some (c, p') \<Rightarrow> if in_class cl c then [p'] else [])"
| "ends Fwd (Seq r1 r2) p = concat (map (ends Fwd r2) (ends Fwd r1 p))"
| "ends Bwd (Seq r1 r2) p = concat (map (ends Bwd r1) (ends Bwd r2 p))"
| "ends d (Alt r1 r2) p = ends d r1 p @ ends d r2 p"
| "ends d (Star cl) p = rev (star_states d cl p)"
| "ends d (StarLazy cl) p = star_states d cl p"
| "ends d WordB p = (if is_boundary p then [p] else [])"
| "ends d EndInput p = (if snd p = [] then [p] else [])"
| "ends d (NotBehind r) p = (if ends Bwd r p = [] then [p] else [])"
| "ends d (NotAhead r) p = (if ends Fwd r p = [] then [p] else [])"

text \<open>The characters of a literal text, one after the other.\<close>

fun lit :: "string \<Rightarrow> re" where
  "lit [] = Eps"
| "lit (c # cs) = Seq (Atom (Lit c)) (lit cs)"

text \<open>
  \<open>match_len r pre suf\<close>: the match of \<open>r\<close> at the position between \<open>pre\<close> and \<open>suf\<close>, as
  the number of characters it consumes.
\<close>

definition match_len :: "re \<Rightarrow> string \<Rightarrow> string \<Rightarrow> nat option" where
  "match_len r pre suf =
     (case ends Fwd r (pre, suf) of
        [] \<Rightarrow> None
      | e # _ \<Rightarrow> Some (length suf - length (snd e)))"

section \<open>\<open>String.prototype.replace\<close> with a global pattern\<close>

text \<open>
  The subject is scanned from left to right. Where the pattern matches, the replacement of
  the matched text is emitted and the scan goes on behind the match; an empty match emits
  its replacement and the scan goes on one character further. Where it does not match, the
  character is copied. Every match sees the subject as it was before the call.
\<close>

function replace_g :: "re \<Rightarrow> (string \<Rightarrow> string) \<Rightarrow> string \<Rightarrow> string \<Rightarrow> string" where
  "replace_g r f pre suf =
     (case match_len r pre suf of
        None \<Rightarrow>
          (case suf of [] \<Rightarrow> [] | c # suf' \<Rightarrow> c # replace_g r f (c # pre) suf')
      | Some n \<Rightarrow>
          if n = 0
          then f [] @ (case suf of [] \<Rightarrow> [] | c # suf' \<Rightarrow> c # replace_g r f (c # pre) suf')
          else f (take n suf) @ replace_g r f (rev (take n suf) @ pre) (drop n suf))"
  by pat_completeness auto

termination replace_g
proof (relation "measure (\<lambda>(r, f, pre, suf). length suf)")
  show "wf (measure (\<lambda>(r, f, pre, suf). length suf))"
    by simp
next
  fix r :: re and f :: "string \<Rightarrow> string" and pre suf :: string and c suf'
  assume "suf = c # suf'"
  then show "((r, f, c # pre, suf'), (r, f, pre, suf)) \<in> measure (\<lambda>(r, f, pre, suf). length suf)"
    by simp
next
  fix r :: re and f :: "string \<Rightarrow> string" and pre suf :: string and n c suf'
  assume "suf = c # suf'"
  then show "((r, f, c # pre, suf'), (r, f, pre, suf)) \<in> measure (\<lambda>(r, f, pre, suf). length suf)"
    by simp
next
  fix r :: re and f :: "string \<Rightarrow> string" and pre suf :: string and n :: nat
  assume "match_len r pre suf = Some n" and "n \<noteq> 0"
  then have "0 < n" and "n \<le> length suf"
    by (auto simp: match_len_def split: list.splits)
  then show "((r, f, rev (take n suf) @ pre, drop n suf), (r, f, pre, suf))
      \<in> measure (\<lambda>(r, f, pre, suf). length suf)"
    by simp
qed

definition replace_all :: "re \<Rightarrow> (string \<Rightarrow> string) \<Rightarrow> string \<Rightarrow> string" where
  "replace_all r f s = replace_g r f [] s"

section \<open>The keyword table\<close>

definition keywords_table :: "(string \<times> string list) list" where
  \<open>keywords_table =
    [(''javascript'',
        [''function'', ''const'', ''let'', ''var'', ''if'', ''else'', ''for'', ''while'', ''return'',
         ''class'', ''import'', ''export'', ''async'', ''await'', ''try'', ''catch'', ''finally'',
         ''new'', ''this'']),
     (''typescript'',
        [''function'', ''const'', ''let'', ''var'', ''if'', ''else'', ''for'', ''while'', ''return'',
         ''class'', ''import'', ''export'', ''async'', ''await'', ''try'', ''catch'', ''finally'',
         ''new'', ''this'', ''interface'', ''type'', ''enum'', ''implements'', ''readonly'',
         ''public'', ''private'', ''protected'', ''as'', ''typeof'']),
     (''python'',
        [''def'', ''class'', ''if'', ''else'', ''elif'', ''for'', ''while'', ''return'', ''import'',
         ''from'', ''as'', ''try'', ''except'', ''with'', ''lambda'', ''yield'', ''self'']),
     (''java'',
        [''public'', ''private'', ''protected'', ''class'', ''interface'', ''if'', ''else'', ''for'',
         ''while'', ''return'', ''import'', ''package'', ''static'', ''final'', ''void'', ''new'',
         ''extends'', ''implements'']),
     (''css'',
        [''color'', ''background'', ''margin'', ''padding'', ''border'', ''width'', ''height'',
         ''display'', ''position'', ''flex'', ''grid'', ''align'', ''justify'', ''z-index'', ''font'',
         ''text'', ''line-height'']),
     (''html'',
        [''div'', ''span'', ''p'', ''h1'', ''h2'', ''h3'', ''body'', ''head'', ''html'', ''script'',
         ''style'', ''link'', ''meta'', ''title'', ''input'', ''form'', ''button'']),
     (''bash'',
        [''cd'', ''ls'', ''mkdir'', ''rm'', ''touch'', ''echo'', ''cat'', ''pwd'', ''chmod'', ''chown'',
         ''sudo'', ''apt'', ''brew'', ''mv'', ''cp'', ''kill'', ''grep'', ''tail'', ''head'', ''export'',
         ''source'']),
     (''git'',
        [''git'', ''clone'', ''commit'', ''push'', ''pull'', ''status'', ''checkout'', ''merge'',
         ''rebase'', ''branch'', ''log'', ''diff'', ''add'', ''init'', ''remote'', ''fetch'', ''tag'',
         ''stash'', ''reset'']),
     (''terminal'',
        [''$'', ''#'', ''~'', ''>'', ''./'', ''../'', ''bash'', ''zsh'', ''sh'', ''node'', ''npm'',
         ''yarn'', ''pnpm''])]\<close>

text \<open>
  The table \<open>keywords\<close> is an object literal, so \<open>keywords[k]\<close> is a property read: an own property
  gives its array, and a name that the object inherits from \<open>Object.prototype\<close> gives the
  inherited function or object. Every other name reads as \<open>undefined\<close>.
\<close>

definition object_prototype_names :: "string list" where
  "object_prototype_names =
    [''constructor'', ''__proto__'', ''hasOwnProperty'', ''isPrototypeOf'',
     ''propertyIsEnumerable'', ''toLocaleString'', ''toString'', ''valueOf'',
     ''__defineGetter__'', ''__defineSetter__'', ''__lookupGetter__'', ''__lookupSetter__'']"

datatype js_value = Array "string list" | Inherited | Undefined

definition get_property :: "string \<Rightarrow> js_value" where
  "get_property k =
     (case map_of keywords_table k of
        Some ws \<Rightarrow> Array ws
      | None \<Rightarrow> if k \<in> set object_prototype_names then Inherited else Undefined)"

text \<open>\<open>v || []\<close>: \<open>undefined\<close> is the only falsy value a property read can give here.\<close>

fun or_empty :: "js_value \<Rightarrow> js_value" where
  "or_empty Undefined = Array []"
| "or_empty v = v"

section \<open>The token classifier\<close>

definition escapeHtml :: "string \<Rightarrow> string" where
  \<open>escapeHtml code =
     replace_all (Atom (Lit (CHR 0x27))) (\<lambda>m. ''&#39;'')
       (replace_all (Atom (Lit (CHR ''"''))) (\<lambda>m. ''&quot;'')
         (replace_all (Atom (Lit (CHR ''>''))) (\<lambda>m. ''&gt;'')
           (replace_all (Atom (Lit (CHR ''<''))) (\<lambda>m. ''&lt;'')
             (replace_all (Atom (Lit (CHR ''&''))) (\<lambda>m. ''&amp;'') code))))\<close>

text \<open>
  The replacement \<open><span class="code-k">$1</span>\<close>. In each pattern below the only group
  encloses everything but zero-width assertions, so \<open>$1\<close> is the matched text.
\<close>

definition open_tag :: "string \<Rightarrow> string" where
  \<open>open_tag k = ''<span class="code-'' @ k @ ''">''\<close>

definition close_tag :: string where
  "close_tag = ''</span>''"

definition wrap :: "string \<Rightarrow> string \<Rightarrow> string" where
  "wrap k m = open_tag k @ m @ close_tag"

text \<open>\<open>(`[^`]*`|"[^"]*"|'[^']*')\<close>\<close>

definition delimited :: "char \<Rightarrow> re" where
  "delimited q = Seq (Atom (Lit q)) (Seq (Star (NotLit q)) (Atom (Lit q)))"

definition string_re :: re where
  \<open>string_re = Alt (delimited (CHR ''`'')) (Alt (delimited (CHR ''"'')) (delimited (CHR 0x27)))\<close>

text \<open>\<open>(\/\/[^\n]*|\/\*[\s\S]*?\*\/|#[^\n]*)\<close>\<close>

definition comment_re :: re where
  "comment_re =
     Alt (Seq (lit ''//'') (Star (NotLit (CHR 0x0A))))
       (Alt (Seq (lit ''/*'') (Seq (StarLazy AnyChar) (lit ''*/'')))
          (Seq (lit ''#'') (Star (NotLit (CHR 0x0A)))))"

text \<open>
  The guards of the last two passes: \<open>(?<!<span class="code-[^"]*">.*)\<close> for numbers,
  the same with a lazy \<open>.*?\<close> for keywords, and \<open>(?![^<]*<\/span>)\<close> for both.
\<close>

definition behind_guard :: "re \<Rightarrow> re" where
  \<open>behind_guard rest =
     NotBehind (Seq (lit ''<span class="code-'')
       (Seq (Star (NotLit (CHR ''"''))) (Seq (lit ''">'') rest)))\<close>

definition ahead_guard :: re where
  "ahead_guard = NotAhead (Seq (Star (NotLit (CHR ''<''))) (lit ''</span>''))"

text \<open>\<open>(?<!<span class="code-[^"]*">.*)\b(\d+\.?\d*)\b(?![^<]*<\/span>)\<close>\<close>

definition number_re :: re where
  "number_re =
     Seq (behind_guard (Star Dot))
       (Seq WordB
         (Seq (Seq (Seq (Atom Digit) (Star Digit))
                 (Seq (Alt (Atom (Lit (CHR ''.''))) Eps) (Star Digit)))
           (Seq WordB ahead_guard)))"

text \<open>
  A keyword is spliced into the pattern text as it is, so it is read as a pattern. The
  table's words hold two pattern characters: a dot, which matches any character but a line
  terminator, and \<open>$\<close>, which matches at the end of the input. Every other character of
  the table stands for itself.
\<close>

fun keyword_char :: "char \<Rightarrow> re" where
  "keyword_char c =
     (if c = CHR ''.'' then Atom Dot else if c = CHR ''$'' then EndInput else Atom (Lit c))"

fun keyword_pattern :: "string \<Rightarrow> re" where
  "keyword_pattern [] = Eps"
| "keyword_pattern (c # cs) = Seq (keyword_char c) (keyword_pattern cs)"

text \<open>\<open>(?<!<span class="code-[^"]*">.*?)\b(keyword)\b(?![^<]*</span>)\<close>\<close>

definition keyword_re :: "string \<Rightarrow> re" where
  "keyword_re keyword =
     Seq (behind_guard (StarLazy Dot))
       (Seq WordB (Seq (keyword_pattern keyword) (Seq WordB ahead_guard)))"

datatype js_error = TypeError

text \<open>
  \<open>langKeywords.forEach\<close>: an array runs the callback on its elements in order; the
  inherited values have no \<open>forEach\<close>, and the call throws a \<open>TypeError\<close>.
\<close>

fun forEach_keywords :: "js_value \<Rightarrow> string \<Rightarrow> js_error + string" where
  "forEach_keywords (Array ws) h =
     Inr (foldl (\<lambda>h keyword. replace_all (keyword_re keyword) (wrap ''keyword'') h) h ws)"
| "forEach_keywords v h = Inl TypeError"

definition string_pass :: "string \<Rightarrow> string" where
  "string_pass h = replace_all string_re (wrap ''string'') h"

definition comment_pass :: "string \<Rightarrow> string" where
  "comment_pass h = replace_all comment_re (wrap ''comment'') h"

definition number_pass :: "string \<Rightarrow> string" where
  "number_pass h = replace_all number_re (wrap ''number'') h"

definition highlightCode :: "string \<Rightarrow> string \<Rightarrow> js_error + string" where
  "highlightCode code language =
     (let highlightedCode = escapeHtml code;
          langKeywords = or_empty (get_property (toLowerCase language));
          highlightedCode = string_pass highlightedCode;
          highlightedCode = comment_pass highlightedCode;
          highlightedCode = number_pass highlightedCode
      in forEach_keywords langKeywords highlightedCode)"

section \<open>The presentation shell\<close>

text \<open>
  The shell holds the document; a notice is what \<open>toast\<close> was called with. The statistics
  are recomputed from the document.
\<close>

record notice =
  title :: string
  description :: string
  destructive :: bool

record shell =
  markdown :: string
  notices :: "notice list"

record MarkdownStats =
  characters :: nat
  words :: nat
  lines :: nat

text \<open>\<open>String.prototype.trim\<close>\<close>

definition trim :: "string \<Rightarrow> string" where
  "trim s = rev (dropWhile is_space (rev (dropWhile is_space s)))"

text \<open>
  \<open>String.prototype.split\<close> with a one-character separator: the pieces between the
  occurrences of the separator, the empty ones too.
\<close>

fun split_on :: "char \<Rightarrow> string \<Rightarrow> string \<Rightarrow> string list" where
  "split_on sep cur [] = [rev cur]"
| "split_on sep cur (c # s) =
     (if c = sep then rev cur # split_on sep [] s else split_on sep (c # cur) s)"

text \<open>
  \<open>String.prototype.split\<close> with a pattern. The position \<open>q\<close> runs over the subject; the
  current piece starts at \<open>p\<close>. Where the pattern matches at \<open>q\<close> and the match does not
  end at \<open>p\<close>, the piece from \<open>p\<close> to \<open>q\<close> is emitted and both move behind the match.
  Otherwise \<open>q\<close> moves on by one. The text from \<open>p\<close> to the end is the last piece. Here
  \<open>cur\<close> is the reversed text from \<open>p\<close> to \<open>q\<close>.
\<close>

function split_loop :: "re \<Rightarrow> string \<Rightarrow> string \<Rightarrow> string \<Rightarrow> string list" where
  "split_loop r cur pre [] = [rev cur]"
| "split_loop r cur pre (c # suf) =
     (case match_len r pre (c # suf) of
        None \<Rightarrow> split_loop r (c # cur) (c # pre) suf
      | Some n \<Rightarrow>
          if n = 0 \<and> cur = [] then split_loop r (c # cur) (c # pre) suf
          else rev cur # split_loop r [] (rev (take n (c # suf)) @ pre) (drop n (c # suf)))"
  by pat_completeness auto
termination
  by (relation "measure (\<lambda>(r, cur, pre, suf). 2 * length suf + (if cur = [] then 0 else 1))")
    (auto simp: match_len_def split: list.splits)

definition split_re :: "re \<Rightarrow> string \<Rightarrow> string list" where
  "split_re r s =
     (if s = [] then (case match_len r [] [] of None \<Rightarrow> [[]] | Some n \<Rightarrow> [])
      else split_loop r [] [] s)"

text \<open>\<open>\s+\<close>\<close>

definition spaces_re :: re where
  "spaces_re = Seq (Atom Space) (Star Space)"

definition stats :: "string \<Rightarrow> MarkdownStats" where
  "stats md =
     \<lparr>characters = length md,
      words = (if trim md \<noteq> [] then length (split_re spaces_re (trim md)) else 0),
      lines = length (split_on (CHR 0x0A) [] md)\<rparr>"

definition handleMarkdownChange :: "string \<Rightarrow> shell \<Rightarrow> shell" where
  "handleMarkdownChange v st =
     (if length v > 50000
      then st\<lparr>notices := notices st @
             [\<lparr>title = ''Content too large'',
               description =
                 ''Please keep content under 50,000 characters for optimal performance.'',
               destructive = True\<rparr>]\<rparr>
      else st\<lparr>markdown := v\<rparr>)"

section \<open>The error boundary\<close>

text \<open>
  The state of the boundary component, its three methods, and the retry button's handler.
  \<open>setState\<close> merges the given fields into the state, so the handler leaves the stored
  error as it is.
\<close>

record boundary =
  hasError :: bool
  error :: "string option"

datatype 'v view = ErrorPanel | Children 'v

definition initial_boundary :: boundary where
  "initial_boundary = \<lparr>hasError = False, error = None\<rparr>"

definition getDerivedStateFromError :: "string \<Rightarrow> boundary" where
  "getDerivedStateFromError e = \<lparr>hasError = True, error = Some e\<rparr>"

definition componentDidCatch :: "string \<Rightarrow> string list \<Rightarrow> string list" where
  "componentDidCatch e console = console @ [''Markdown rendering error: '' @ e]"

definition render :: "boundary \<Rightarrow> 'v \<Rightarrow> 'v view" where
  "render st children = (if hasError st then ErrorPanel else Children children)"

definition try_again :: "boundary \<Rightarrow> boundary" where
  "try_again st = st\<lparr>hasError := False\<rparr>"

text \<open>
  How the framework drives a boundary: it renders the boundary, and where the boundary
  returns its children it renders them. If that throws, it replaces the state by what
  \<open>getDerivedStateFromError\<close> returns, calls \<open>componentDidCatch\<close> and renders the
  boundary again; an error thrown then is not caught by this boundary any more. The
  children's rendering is \<open>Inl e\<close> when it throws \<open>e\<close>. The result is the new state, the
  console and the outcome.
\<close>

datatype 'v outcome = Shown "'v view" | Uncaught string

definition render_children :: "(string + 'v) view \<Rightarrow> (string + 'v view)" where
  "render_children v =
     (case v of
        ErrorPanel \<Rightarrow> Inr ErrorPanel
      | Children ch \<Rightarrow> (case ch of Inl e \<Rightarrow> Inl e | Inr out \<Rightarrow> Inr (Children out)))"

definition render_boundary ::
    "boundary \<Rightarrow> string list \<Rightarrow> (string + 'v) \<Rightarrow> boundary \<times> string list \<times> 'v outcome" where
  "render_boundary st console children =
     (case render_children (render st children) of
        Inr v \<Rightarrow> (st, console, Shown v)
      | Inl e \<Rightarrow>
          (let st' = getDerivedStateFromError e;
               console' = componentDidCatch e console
           in case render_children (render st' children) of
                Inr v \<Rightarrow> (st', console', Shown v)
              | Inl e' \<Rightarrow> (st', console', Uncaught e')))"

section \<open>Notions used to state the properties\<close>

text \<open>
  The number of maximal runs of characters that are not white space: a run starts at a
  character that is not white space and is the first one or follows white space. The flag
  says whether the scan is inside a run.
\<close>

fun run_count :: "bool \<Rightarrow> string \<Rightarrow> nat" where
  "run_count in_run [] = 0"
| "run_count in_run (c # s) =
     (if is_space c then run_count False s
      else (if in_run then 0 else 1) + run_count True s)"

definition word_runs :: "string \<Rightarrow> nat" where
  "word_runs s = run_count False s"


text \<open>The entity of a character, and the character itself where it has none.\<close>

definition escape_char :: "char \<Rightarrow> string" where
  \<open>escape_char c =
     (if c = CHR ''&'' then ''&amp;''
      else if c = CHR ''<'' then ''&lt;''
      else if c = CHR ''>'' then ''&gt;''
      else if c = CHR ''"'' then ''&quot;''
      else if c = CHR 0x27 then ''&#39;''
      else [c])\<close>

text \<open>The tags of the classification spans.\<close>

definition span_tags :: "string list" where
  "span_tags =
     [close_tag, open_tag ''string'', open_tag ''comment'', open_tag ''number'',
      open_tag ''keyword'']"

text \<open>\<open>spans_inserted s t\<close>: \<open>t\<close> is \<open>s\<close> with span tags put in, one after the other.\<close>

inductive spans_inserted :: "string \<Rightarrow> string \<Rightarrow> bool" where
  same: "spans_inserted s s"
| put: "spans_inserted s (a @ b) \<Longrightarrow> t \<in> set span_tags \<Longrightarrow> spans_inserted s (a @ t @ b)"

text \<open>
  \<open>opens_tag s\<close>: the text after a \<open><\<close> goes on as a span tag does, with
  \<open>span class="code-\<close> or with \<open>/span>\<close>. \<open>every_lt_opens_tag\<close>: every \<open><\<close> of the
  text starts so, as it must where every angle bracket belongs to a span tag.
\<close>

fun starts_with :: "string \<Rightarrow> string \<Rightarrow> bool" where
  "starts_with [] s = True"
| "starts_with (p # ps) [] = False"
| "starts_with (p # ps) (c # s) = (p = c \<and> starts_with ps s)"




text \<open>
  The same as a test that runs: \<open>intact_from n s\<close> skips the \<open>n\<close> characters that are left
  of the tag it is in, and at an angle bracket outside a tag it looks for a span tag that
  starts there.
\<close>

fun intact_from :: "nat \<Rightarrow> string \<Rightarrow> bool" where
  "intact_from n [] = (n = 0)"
| "intact_from (Suc n) (c # s) = intact_from n s"
| "intact_from 0 (c # s) =
     (if c = CHR ''<'' \<or> c = CHR ''>''
      then (case find (\<lambda>t. starts_with t (c # s)) span_tags of
              None \<Rightarrow> False
            | Some t \<Rightarrow> intact_from (length t - 1) s)
      else intact_from 0 s)"

definition tags_intact :: "string \<Rightarrow> bool" where
  "tags_intact s = intact_from 0 s"

text \<open>
  The keywords of a language tag, and the keywords that cannot match inside a span tag: a
  safe keyword holds none of the characters \<open>.\<close>, \<open>$\<close>, \<open><\<close> and \<open>>\<close> and does not occur in
  the text of a span tag.
\<close>

definition language_keywords :: "string \<Rightarrow> string list" where
  "language_keywords language =
     (case map_of keywords_table (toLowerCase language) of None \<Rightarrow> [] | Some ws \<Rightarrow> ws)"

fun nonempty_suffixes :: "'a list \<Rightarrow> 'a list list" where
  "nonempty_suffixes [] = []"
| "nonempty_suffixes (c # cs) = (c # cs) # nonempty_suffixes cs"

definition safe_keyword :: "string \<Rightarrow> bool" where
  "safe_keyword kw =
     (list_all (\<lambda>c. c \<notin> set ''.$<>'') kw
      \<and> list_all (\<lambda>t. list_all (\<lambda>u. \<not> starts_with kw u) (nonempty_suffixes t)) span_tags)"


section \<open>Evaluating a replacement\<close>

text \<open>
  \<open>quick r s\<close> is a cheap test that holds wherever \<open>r\<close> matches in front of \<open>s\<close>: it
  compares the leading literals and character classes of \<open>r\<close> with \<open>s\<close> and skips the
  assertions.
\<close>

fun quick :: "re \<Rightarrow> string \<Rightarrow> bool" where
  "quick (Atom cl) s = (case s of [] \<Rightarrow> False | c # _ \<Rightarrow> in_class cl c)"
| "quick (Seq (Atom cl) r) s = (case s of [] \<Rightarrow> False | c # s' \<Rightarrow> in_class cl c \<and> quick r s')"
| "quick (Seq WordB r) s = quick r s"
| "quick (Seq (NotBehind b) r) s = quick r s"
| "quick (Seq (NotAhead a) r) s = quick r s"
| "quick (Seq EndInput r) s = (s = [] \<and> quick r s)"
| "quick (Seq Eps r) s = quick r s"
| "quick (Seq (Seq a b) r) s = quick (Seq a b) s"
| "quick (Seq (Alt a b) r) s = quick (Alt a b) s"
| "quick (Alt a b) s = (quick a s \<or> quick b s)"
| "quick EndInput s = (s = [])"
| "quick r s = True"


declare replace_g.simps [simp del]
declare split_loop.simps [simp del]

section \<open>Lemmas\<close>

subsection \<open>The quick test is sound\<close>

lemma ends_quick: "ends Fwd r (pre, suf) \<noteq> [] \<Longrightarrow> quick r suf"
proof (induction r suf arbitrary: pre rule: quick.induct)
  case (2 cl r s)
  then show ?case by (cases s) (auto split: if_splits)
next
  case (3 r s)
  then show ?case by (auto split: if_splits)
next
  case (4 b r s)
  then show ?case by (auto split: if_splits)
next
  case (5 a r s)
  then show ?case by (auto split: if_splits)
next
  case (6 r s)
  then show ?case by (auto split: if_splits)
next
  case (8 a b r s)
  from 8(2) have "ends Fwd (Seq a b) (pre, s) \<noteq> []"
    by (auto simp del: ends.simps(3) simp add: ends.simps(3) [of "Seq a b" r])
  then show ?case using 8(1) by simp
next
  case (9 a b r s)
  from 9(2) have "ends Fwd (Alt a b) (pre, s) \<noteq> []"
    by (auto simp add: ends.simps(3) [of "Alt a b" r])
  then show ?case using 9(1) by simp
qed (auto split: list.splits if_splits)

lemma replace_g_Cons:
  "replace_g r f pre (c # suf) =
     (if quick r (c # suf)
      then (case match_len r pre (c # suf) of
              None \<Rightarrow> c # replace_g r f (c # pre) suf
            | Some n \<Rightarrow>
                if n = 0 then f [] @ c # replace_g r f (c # pre) suf
                else f (take n (c # suf)) @
                  replace_g r f (rev (take n (c # suf)) @ pre) (drop n (c # suf)))
      else c # replace_g r f (c # pre) suf)"
  using ends_quick [of r pre "c # suf"]
  by (subst replace_g.simps) (auto simp: match_len_def split: list.splits)

lemma replace_g_Nil:
  "replace_g r f pre [] =
     (if quick r [] then (case match_len r pre [] of None \<Rightarrow> [] | Some n \<Rightarrow> f []) else [])"
  using ends_quick [of r pre "[]"]
  by (subst replace_g.simps) (auto simp: match_len_def split: list.splits)

lemmas eval_simps =
  highlightCode_def escapeHtml_def string_pass_def comment_pass_def number_pass_def
  replace_all_def string_re_def comment_re_def number_re_def keyword_re_def behind_guard_def
  ahead_guard_def delimited_def wrap_def open_tag_def close_tag_def get_property_def
  keywords_table_def object_prototype_names_def toLowerCase_def lower_char_def
  digits_def lower_letters_def upper_letters_def latin1_upper_def latin1_lower_def
  is_digit_def is_word_char_def is_space_def is_line_terminator_def is_boundary_def match_len_def
  replace_g_Cons replace_g_Nil Let_def
  lit.simps keyword_pattern.simps keyword_char.simps quick.simps in_class.simps
  ends.simps step.simps runs.simps star_states.simps swap_pos.simps
  word_before.simps word_after.simps or_empty.simps forEach_keywords.simps
  list.set insert_iff empty_iff map_of.simps fun_upd_apply zip_Cons_Cons zip_Nil
  list.case option.case prod.case sum.case char.inject list.inject list.distinct option.inject
  option.distinct sum.inject js_value.case js_value.distinct js_value.inject
  simp_thms if_True if_False snd_conv fst_conv
  list.map concat.simps append.simps rev.simps foldl.simps
  list.size take_Suc_Cons drop_Suc_Cons take_0 drop_0 diff_Suc_Suc diff_zero
  nat.distinct nat.inject add_Suc add_Suc_right add_0 add_0_right

subsection \<open>A match is a piece of the subject\<close>







subsection \<open>Lower case\<close>

lemma lower_not_upper:
  "\<forall>l \<in> set (lower_letters @ latin1_lower). l \<notin> set (upper_letters @ latin1_upper)"
  by (simp add: lower_letters_def latin1_lower_def upper_letters_def latin1_upper_def)

lemma lower_char_idem: "lower_char (lower_char c) = lower_char c"
proof (cases "map_of (zip (upper_letters @ latin1_upper) (lower_letters @ latin1_lower)) c")
  case None
  then show ?thesis by (simp add: lower_char_def)
next
  case (Some l)
  then have "l \<in> set (lower_letters @ latin1_lower)"
    by (meson map_of_SomeD set_zip_rightD)
  then have "l \<notin> set (upper_letters @ latin1_upper)"
    using lower_not_upper by blast
  then have "map_of (zip (upper_letters @ latin1_upper) (lower_letters @ latin1_lower)) l = None"
    by (auto simp: map_of_eq_None_iff dest: set_zip_leftD)
  with Some show ?thesis by (simp add: lower_char_def)
qed

lemma toLowerCase_idem: "toLowerCase (toLowerCase s) = toLowerCase s"
  by (simp add: toLowerCase_def lower_char_idem)

subsection \<open>Inserted tags\<close>

lemma spans_inserted_trans:
  "spans_inserted t u \<Longrightarrow> spans_inserted s t \<Longrightarrow> spans_inserted s u"
  by (induction rule: spans_inserted.induct) (auto intro: spans_inserted.intros)

lemma spans_inserted_prefix: "spans_inserted s t \<Longrightarrow> spans_inserted (p @ s) (p @ t)"
proof (induction rule: spans_inserted.induct)
  case (same s)
  show ?case by (rule spans_inserted.same)
next
  case (put s a b t)
  from put.IH have "spans_inserted (p @ s) ((p @ a) @ b)" by simp
  then have "spans_inserted (p @ s) ((p @ a) @ t @ b)"
    using put.hyps(2) by (rule spans_inserted.put)
  then show ?case by simp
qed

lemma spans_inserted_wrap:
  assumes k: "open_tag k \<in> set span_tags" and rest: "spans_inserted rest rest'"
  shows "spans_inserted (m @ rest) (wrap k m @ rest')"
proof -
  have c: "close_tag \<in> set span_tags" by (simp add: span_tags_def)
  from rest have "spans_inserted (m @ rest) (m @ rest')" by (rule spans_inserted_prefix)
  then have "spans_inserted (m @ rest) (m @ close_tag @ rest')"
    using c by (rule spans_inserted.put)
  then have "spans_inserted (m @ rest) ([] @ m @ close_tag @ rest')" by simp
  then have "spans_inserted (m @ rest) ([] @ open_tag k @ m @ close_tag @ rest')"
    using k by (rule spans_inserted.put)
  then show ?thesis by (simp add: wrap_def)
qed

lemma replace_g_inserted:
  assumes k: "open_tag k \<in> set span_tags"
  shows "spans_inserted suf (replace_g r (wrap k) pre suf)"
proof (induction r "wrap k" pre suf rule: replace_g.induct)
  case (1 r pre suf)
  show ?case
  proof (cases "match_len r pre suf")
    case None
    show ?thesis
    proof (cases suf)
      case Nil
      with None show ?thesis
        by (subst replace_g.simps) (simp add: spans_inserted.same)
    next
      case (Cons c suf')
      with None 1(1) have "spans_inserted suf' (replace_g r (wrap k) (c # pre) suf')" by simp
      then have "spans_inserted ([c] @ suf') ([c] @ replace_g r (wrap k) (c # pre) suf')"
        by (rule spans_inserted_prefix)
      with None Cons show ?thesis
        by (subst replace_g.simps) simp
    qed
  next
    case (Some n)
    show ?thesis
    proof (cases "n = 0")
      case True
      show ?thesis
      proof (cases suf)
        case Nil
        have "spans_inserted ([] @ []) (wrap k [] @ [])"
          using k spans_inserted.same by (rule spans_inserted_wrap)
        with Some True Nil show ?thesis
          by (subst replace_g.simps) simp
      next
        case (Cons c suf')
        with Some True 1(2) have "spans_inserted suf' (replace_g r (wrap k) (c # pre) suf')"
          by simp
        then have "spans_inserted ([c] @ suf') ([c] @ replace_g r (wrap k) (c # pre) suf')"
          by (rule spans_inserted_prefix)
        then have "spans_inserted ([] @ [c] @ suf')
            (wrap k [] @ [c] @ replace_g r (wrap k) (c # pre) suf')"
          using k by (intro spans_inserted_wrap)
        with Some True Cons show ?thesis
          by (subst replace_g.simps) simp
      qed
    next
      case False
      with Some 1(3) have
        "spans_inserted (drop n suf)
           (replace_g r (wrap k) (rev (take n suf) @ pre) (drop n suf))"
        by simp
      then have "spans_inserted (take n suf @ drop n suf)
          (wrap k (take n suf) @ replace_g r (wrap k) (rev (take n suf) @ pre) (drop n suf))"
        using k by (intro spans_inserted_wrap)
      with Some False show ?thesis
        by (subst replace_g.simps) simp
    qed
  qed
qed

lemma keyword_fold_inserted:
  "spans_inserted h
     (foldl (\<lambda>h keyword. replace_all (keyword_re keyword) (wrap ''keyword'') h) h ws)"
proof (induction ws arbitrary: h)
  case Nil
  show ?case by (simp add: spans_inserted.same)
next
  case (Cons w ws)
  have "spans_inserted h (replace_all (keyword_re w) (wrap ''keyword'') h)"
    unfolding replace_all_def by (rule replace_g_inserted) (simp add: span_tags_def)
  with Cons.IH [of "replace_all (keyword_re w) (wrap ''keyword'') h"] show ?case
    by (auto intro: spans_inserted_trans)
qed

lemma passes_inserted:
  "spans_inserted h (number_pass (comment_pass (string_pass h)))"
proof -
  have 1: "spans_inserted h (string_pass h)"
    unfolding string_pass_def replace_all_def
    by (rule replace_g_inserted) (simp add: span_tags_def)
  have 2: "spans_inserted (string_pass h) (comment_pass (string_pass h))"
    unfolding comment_pass_def replace_all_def
    by (rule replace_g_inserted) (simp add: span_tags_def)
  have 3: "spans_inserted (comment_pass (string_pass h)) (number_pass (comment_pass (string_pass h)))"
    unfolding number_pass_def replace_all_def
    by (rule replace_g_inserted) (simp add: span_tags_def)
  from 3 2 1 show ?thesis by (blast intro: spans_inserted_trans)
qed

lemma highlightCode_inserted:
  assumes "highlightCode code language = Inr out"
  shows "spans_inserted (escapeHtml code) out"
proof (cases "or_empty (get_property (toLowerCase language))")
  case (Array ws)
  with assms have "out = foldl (\<lambda>h keyword. replace_all (keyword_re keyword) (wrap ''keyword'') h)
      (number_pass (comment_pass (string_pass (escapeHtml code)))) ws"
    by (simp add: highlightCode_def)
  then show ?thesis
    using keyword_fold_inserted passes_inserted spans_inserted_trans by blast
next
  case Inherited
  with assms show ?thesis by (simp add: highlightCode_def)
next
  case Undefined
  with assms show ?thesis by (simp add: highlightCode_def)
qed

subsection \<open>The escape\<close>

lemma match_len_Lit_Cons:
  "match_len (Atom (Lit x)) pre (c # s) = (if c = x then Some 1 else None)"
  by (simp add: match_len_def)

lemma match_len_Lit_Nil: "match_len (Atom (Lit x)) pre [] = None"
  by (simp add: match_len_def)

lemma replace_g_Lit:
  "replace_g (Atom (Lit x)) (\<lambda>m. rep) pre s = concat (map (\<lambda>c. if c = x then rep else [c]) s)"
proof (induction s arbitrary: pre)
  case Nil
  show ?case by (subst replace_g.simps) (simp add: match_len_Lit_Nil)
next
  case (Cons c s)
  show ?case
    by (subst replace_g.simps) (simp add: match_len_Lit_Cons Cons.IH)
qed

lemma replace_all_Lit_set:
  "set (replace_all (Atom (Lit x)) (\<lambda>m. rep) s) \<subseteq> (set s - {x}) \<union> set rep"
  by (auto simp: replace_all_def replace_g_Lit split: if_splits)

lemma replace_all_Lit_keeps_out:
  "y \<notin> set s \<Longrightarrow> y \<notin> set rep \<Longrightarrow> y \<notin> set (replace_all (Atom (Lit x)) (\<lambda>m. rep) s)"
  using replace_all_Lit_set [of x rep s] by auto

lemma replace_all_Lit_removes:
  "x \<notin> set rep \<Longrightarrow> x \<notin> set (replace_all (Atom (Lit x)) (\<lambda>m. rep) s)"
  using replace_all_Lit_set [of x rep s] by auto

lemma escapeHtml_no_lt: "CHR ''<'' \<notin> set (escapeHtml code)"
  unfolding escapeHtml_def
  by (intro replace_all_Lit_keeps_out replace_all_Lit_removes) simp_all

lemma escapeHtml_no_gt: "CHR ''>'' \<notin> set (escapeHtml code)"
  unfolding escapeHtml_def
  by (intro replace_all_Lit_keeps_out replace_all_Lit_removes) simp_all

lemma escapeHtml_no_quote:
  \<open>CHR ''"'' \<notin> set (escapeHtml code)\<close> "CHR 0x27 \<notin> set (escapeHtml code)"
  unfolding escapeHtml_def
  by (intro replace_all_Lit_keeps_out replace_all_Lit_removes; simp)+

subsection \<open>The string pass after the escape\<close>

lemma replace_g_inert:
  assumes "\<And>c t. c \<in> set s \<Longrightarrow> \<not> quick r (c # t)" and "\<not> quick r []"
  shows "replace_g r f pre s = s"
  using assms(1)
proof (induction s arbitrary: pre)
  case Nil
  show ?case using assms(2) by (simp add: replace_g_Nil)
next
  case (Cons c s)
  then show ?case by (simp add: replace_g_Cons)
qed

lemma quick_string_re:
  \<open>quick string_re (c # t) \<longleftrightarrow> c = CHR 0x60 \<or> c = CHR ''"'' \<or> c = CHR 0x27\<close>
  by (auto simp: string_re_def delimited_def)

lemma escapeHtml_no_backtick: "CHR 0x60 \<notin> set code \<Longrightarrow> CHR 0x60 \<notin> set (escapeHtml code)"
  unfolding escapeHtml_def
  by (intro replace_all_Lit_keeps_out) simp_all

lemma string_pass_escaped:
  assumes "CHR 0x60 \<notin> set code"
  shows "string_pass (escapeHtml code) = escapeHtml code"
  unfolding string_pass_def replace_all_def
proof (rule replace_g_inert)
  fix c t
  assume "c \<in> set (escapeHtml code)"
  then show "\<not> quick string_re (c # t)"
    using escapeHtml_no_backtick [OF assms] escapeHtml_no_quote [of code]
    by (auto simp: quick_string_re)
next
  show "\<not> quick string_re []"
    by (simp add: string_re_def delimited_def)
qed

subsection \<open>Splitting\<close>

lemma length_split_on: "length (split_on sep cur s) = count_list s sep + 1"
  by (induction s arbitrary: cur) auto

lemma runs_nonempty: "runs cl a b \<noteq> []"
  by (cases b) auto

lemma last_runs:
  "last (runs cl a b) = (rev (takeWhile (in_class cl) b) @ a, dropWhile (in_class cl) b)"
  by (induction b arbitrary: a) (auto simp: runs_nonempty)

lemma length_takeWhile_dropWhile: "length s - length (dropWhile P s) = length (takeWhile P s)"
proof -
  have "length (takeWhile P s @ dropWhile P s) = length s" by simp
  then show ?thesis by (simp del: takeWhile_dropWhile_id)
qed

lemma match_len_spaces_Nil: "match_len spaces_re pre [] = None"
  by (simp add: match_len_def spaces_re_def)

lemma match_len_spaces_Cons:
  "match_len spaces_re pre (c # s) =
     (if is_space c then Some (Suc (length (takeWhile is_space s))) else None)"
proof (cases "is_space c")
  case False
  then show ?thesis by (simp add: match_len_def spaces_re_def)
next
  case True
  have in_space: "in_class Space = is_space" by (rule ext) simp
  have "ends Fwd spaces_re (pre, c # s) = rev (runs Space (c # pre) s)"
    using True by (simp add: spaces_re_def)
  moreover have "hd (rev (runs Space (c # pre) s)) =
      (rev (takeWhile is_space s) @ c # pre, dropWhile is_space s)"
    by (simp add: hd_rev runs_nonempty last_runs in_space)
  moreover have "rev (runs Space (c # pre) s) \<noteq> []"
    by (simp add: runs_nonempty)
  ultimately show ?thesis
    using True
    by (cases "rev (runs Space (c # pre) s)")
      (auto simp: match_len_def Suc_diff_le length_dropWhile_le length_takeWhile_dropWhile [symmetric])
qed

lemma run_count_skip_spaces:
  "run_count False s + (if s = [] \<or> is_space (last s) then 1 else 0) =
   1 + run_count True (dropWhile is_space s) +
     (if dropWhile is_space s \<noteq> [] \<and> is_space (last (dropWhile is_space s)) then 1 else 0)"
  by (induction s) auto

lemma length_split_loop_spaces:
  "length (split_loop spaces_re cur pre suf) =
     1 + run_count True suf + (if suf \<noteq> [] \<and> is_space (last suf) then 1 else 0)"
proof (induction "spaces_re" cur pre suf rule: split_loop.induct)
  case (1 cur pre)
  show ?case by (simp add: split_loop.simps)
next
  case (2 cur pre c suf)
  show ?case
  proof (cases "is_space c")
    case False
    then have "length (split_loop spaces_re cur pre (c # suf)) =
        length (split_loop spaces_re (c # cur) (c # pre) suf)"
      by (simp add: split_loop.simps match_len_spaces_Cons)
    also have "\<dots> = 1 + run_count True suf + (if suf \<noteq> [] \<and> is_space (last suf) then 1 else 0)"
      using 2(1) False by (simp add: match_len_spaces_Cons)
    finally show ?thesis using False by auto
  next
    case True
    let ?n = "Suc (length (takeWhile is_space suf))"
    have m: "match_len spaces_re pre (c # suf) = Some ?n"
      using True by (simp add: match_len_spaces_Cons)
    have d: "drop ?n (c # suf) = dropWhile is_space suf"
      by (simp add: dropWhile_eq_drop)
    have "length (split_loop spaces_re cur pre (c # suf)) =
        1 + length (split_loop spaces_re [] (rev (take ?n (c # suf)) @ pre) (drop ?n (c # suf)))"
      using m by (simp add: split_loop.simps)
    also have "\<dots> = 1 + (1 + run_count True (dropWhile is_space suf) +
        (if dropWhile is_space suf \<noteq> [] \<and> is_space (last (dropWhile is_space suf)) then 1 else 0))"
    proof -
      have nz: "\<not> (?n = 0 \<and> cur = [])" by simp
      show ?thesis
        using 2(3) [OF m nz] unfolding d by (rule arg_cong)
    qed
    also have "\<dots> = 1 + (run_count False suf + (if suf = [] \<or> is_space (last suf) then 1 else 0))"
      using run_count_skip_spaces [of suf] by simp
    finally show ?thesis using True by auto
  qed
qed

subsection \<open>Trimming\<close>

lemma trim_ends:
  assumes "trim s \<noteq> []"
  shows "\<not> is_space (hd (trim s))" and "\<not> is_space (last (trim s))"
proof -
  let ?u = "dropWhile is_space s"
  let ?v = "dropWhile is_space (rev ?u)"
  from assms have v: "?v \<noteq> []" by (simp add: trim_def)
  have u: "?u \<noteq> []"
  proof
    assume "?u = []"
    then have "?v = []" by (simp only: rev.simps dropWhile.simps)
    with v show False by (simp only: not_False_eq_True simp_thms)
  qed
  from v have "\<not> is_space (hd ?v)" by (rule hd_dropWhile)
  then show "\<not> is_space (last (trim s))"
    using v by (simp add: trim_def last_rev)
  have "last ?v = last (rev ?u)"
    using v by (metis last_appendR takeWhile_dropWhile_id)
  then have "hd (trim s) = hd ?u"
    using u v by (simp add: trim_def hd_rev last_rev)
  moreover from u have "\<not> is_space (hd ?u)" by (rule hd_dropWhile)
  ultimately show "\<not> is_space (hd (trim s))" by simp
qed

lemma words_of_trimmed:
  assumes "t \<noteq> []" and "\<not> is_space (hd t)" and "\<not> is_space (last t)"
  shows "length (split_re spaces_re t) = word_runs t"
proof -
  from assms obtain c s where t: "t = c # s" by (cases t) auto
  have "length (split_re spaces_re t) = 1 + run_count True t"
    using assms by (simp add: split_re_def length_split_loop_spaces)
  also have "\<dots> = word_runs t"
    using assms t by (simp add: word_runs_def)
  finally show ?thesis .
qed


lemma escapeHtml_chars: "escapeHtml code = concat (map escape_char code)"
  by (induction code) (auto simp: escapeHtml_def replace_all_def replace_g_Lit escape_char_def)

subsection \<open>Texts with whole tags\<close>









subsection \<open>A pass that keeps the tags whole\<close>





subsection \<open>What a match consumes\<close>





subsection \<open>The number pass keeps the tags whole\<close>




subsection \<open>The keyword pass of a safe keyword keeps the tags whole\<close>











subsection \<open>The comment pass keeps the tags whole\<close>












subsection \<open>The classifier keeps the tags whole\<close>







subsection \<open>Safe keyword lists\<close>

lemmas check_simps =
  language_keywords_def safe_keyword_def tags_intact_def span_tags_def
  nonempty_suffixes.simps starts_with.simps intact_from.simps find.simps
  list.pred_inject One_nat_def diff_Suc_Suc diff_zero diff_Suc_1


lemma unlisted_language_safe:
  "map_of keywords_table (toLowerCase language) = None \<Longrightarrow>
   list_all safe_keyword (language_keywords language)"
  by (simp add: language_keywords_def)


text \<open>
  The other languages of the table have a keyword that is not safe, and each has a code on
  which a tag is split (for \<open>javascript\<close> see C9).
\<close>

lemma class_keyword_breaks_tag:
  \<open>\<forall>l \<in> set [''typescript'', ''python'', ''java''].
     highlightCode ''`#`'' l =
       Inr (''<span <span class="code-keyword">class</span>="code-string">`'' @
            ''<span class="code-comment">#`</span></span>'')\<close>
  by (simp only: eval_simps ball_simps cong: if_weak_cong list.case_cong_weak option.case_cong_weak)

lemma span_keyword_breaks_tag:
  \<open>highlightCode ''/* a\<newline> b */'' ''html'' =
     Inr ''<span class="code-comment">/* a\<newline> b */</<span class="code-keyword">span</span>>''
   \<and> \<not> tags_intact
       ''<span class="code-comment">/* a\<newline> b */</<span class="code-keyword">span</span>>''\<close>
  by (simp only: check_simps eval_simps
      cong: if_weak_cong list.case_cong_weak option.case_cong_weak)

lemma gt_keyword_breaks_tag:
  \<open>highlightCode ''/*\<newline>*/x'' ''terminal'' =
     Inr (''<span class="code-comment">/*\<newline>*/</span<span class="code-keyword">></span>x'' @
          ''<span class="code-keyword"></span>'')
   \<and> \<not> tags_intact
       (''<span class="code-comment">/*\<newline>*/</span<span class="code-keyword">></span>x'' @
        ''<span class="code-keyword"></span>'')\<close>
  by (simp only: check_simps eval_simps
      cong: if_weak_cong list.case_cong_weak option.case_cong_weak)

lemma unsafe_languages:
  "\<forall>l \<in> set [''javascript'', ''typescript'', ''python'', ''java'', ''html'', ''terminal''].
     \<not> list_all safe_keyword (language_keywords l)"
  by (simp only: check_simps eval_simps ball_simps
      cong: if_weak_cong list.case_cong_weak option.case_cong_weak)

subsection \<open>Tags outside the table\<close>

lemma get_property_constructor: "get_property (toLowerCase ''constructor'') = Inherited"
  by (simp only: eval_simps cong: if_weak_cong list.case_cong_weak option.case_cong_weak)

lemma highlightCode_returns_iff:
  "(\<exists>out. highlightCode code language = Inr out) \<longleftrightarrow>
   get_property (toLowerCase language) \<noteq> Inherited"
  by (cases "get_property (toLowerCase language)") (simp_all add: highlightCode_def)

section \<open>The token classifier on the examples\<close>

text \<open>
  C1. On the code \<open>"hi" + 42\<close> with the tag \<open>javascript\<close> the classifier wraps the
  numeral in a number span, once. The quoted text is not wrapped in a string span: the
  escape has turned both quotes into \<open>&quot;\<close> before the string pass looks for them
  (\<open>string_pass_escaped\<close>: without a backtick in the code the string pass wraps nothing).
\<close>

theorem highlightCode_double_quoted:
  \<open>highlightCode ''"hi" + 42'' ''javascript'' =
     Inr ''&quot;hi&quot; + <span class="code-number">42</span>''\<close>
  by (simp only: eval_simps cong: if_weak_cong list.case_cong_weak option.case_cong_weak)

text \<open>
  C2. On the five characters \<open><b>&"'\<close> with the tag \<open>text\<close> each character is escaped
  once, and the comment pass then wraps the \<open>#39;\<close> of the apostrophe's entity in a
  comment span.
\<close>

theorem highlightCode_metacharacters:
  \<open>highlightCode (''<b>&"'' @ [CHR 0x27]) ''text'' =
     Inr ''&lt;b&gt;&amp;&quot;&<span class="code-comment">#39;</span>''\<close>
  by (simp only: eval_simps cong: if_weak_cong list.case_cong_weak option.case_cong_weak)

text \<open>
  C5. On the two lines \<open>def f(n):\<close> and \<open>    return n  # base\<close> with the tag \<open>python\<close>
  the classifier wraps \<open>def\<close> and \<open>return\<close> in keyword spans and \<open># base\<close> in a comment
  span, and changes nothing else.
\<close>

theorem highlightCode_python_example:
  \<open>highlightCode ''def f(n):\<newline>    return n  # base'' ''python'' =
     Inr (''<span class="code-keyword">def</span> f(n):\<newline>'' @
          ''    <span class="code-keyword">return</span> n  <span class="code-comment"># base</span>'')\<close>
  by (simp only: eval_simps cong: if_weak_cong list.case_cong_weak option.case_cong_weak)

section \<open>The document\<close>

text \<open>
  C3. An update with more than 50,000 characters leaves the document, and so the
  statistics, as they were.
\<close>

theorem handleMarkdownChange_rejects:
  "50000 < length s \<Longrightarrow>
     markdown (handleMarkdownChange s st) = markdown st
     \<and> stats (markdown (handleMarkdownChange s st)) = stats (markdown st)"
  by (simp add: handleMarkdownChange_def)

theorem handleMarkdownChange_rejects_witness:
  "50000 < length (replicate 50001 (CHR ''a''))
   \<and> markdown (handleMarkdownChange (replicate 50001 (CHR ''a''))
        \<lparr>markdown = ''# Title'', notices = []\<rparr>) = ''# Title''"
  using handleMarkdownChange_rejects [of "replicate 50001 (CHR ''a'')"
      "\<lparr>markdown = ''# Title'', notices = []\<rparr>"]
  by simp

text \<open>
  C4. An update with at most 50,000 characters replaces the document, and the statistics
  of the new document are: its length; no words if it is empty once trimmed, and else the
  number of maximal runs without white space of the trimmed text; and the number of line
  feeds plus one.
\<close>

theorem handleMarkdownChange_accepts:
  assumes "length s \<le> 50000"
  shows "markdown (handleMarkdownChange s st) = s
    \<and> characters (stats (markdown (handleMarkdownChange s st))) = length s
    \<and> words (stats (markdown (handleMarkdownChange s st))) =
        (if trim s = [] then 0 else word_runs (trim s))
    \<and> lines (stats (markdown (handleMarkdownChange s st))) = count_list s (CHR 0x0A) + 1"
proof -
  have m: "markdown (handleMarkdownChange s st) = s"
    using assms by (simp add: handleMarkdownChange_def)
  have w: "trim s \<noteq> [] \<Longrightarrow> length (split_re spaces_re (trim s)) = word_runs (trim s)"
    using trim_ends [of s] by (intro words_of_trimmed)
  show ?thesis
    unfolding m using w by (simp add: stats_def length_split_on)
qed

theorem handleMarkdownChange_accepts_witness:
  "length '' two  words\<newline>here '' \<le> 50000
   \<and> markdown (handleMarkdownChange '' two  words\<newline>here ''
        \<lparr>markdown = ''old'', notices = []\<rparr>) = '' two  words\<newline>here ''
   \<and> characters (stats (markdown (handleMarkdownChange '' two  words\<newline>here ''
        \<lparr>markdown = ''old'', notices = []\<rparr>))) = 17
   \<and> words (stats (markdown (handleMarkdownChange '' two  words\<newline>here ''
        \<lparr>markdown = ''old'', notices = []\<rparr>))) = 3
   \<and> lines (stats (markdown (handleMarkdownChange '' two  words\<newline>here ''
        \<lparr>markdown = ''old'', notices = []\<rparr>))) = 2"
  using handleMarkdownChange_accepts [of "'' two  words\<newline>here ''"
      "\<lparr>markdown = ''old'', notices = []\<rparr>"]
  by (simp add: handleMarkdownChange_def trim_def word_runs_def is_space_def)

section \<open>Language tags\<close>

text \<open>
  C6. The classifier does not return for every tag: with the tag \<open>constructor\<close> the
  property read gives the function inherited from \<open>Object.prototype\<close>, which has no
  \<open>forEach\<close>, and the call throws whatever the code is.
\<close>

theorem highlightCode_constructor: "highlightCode code ''constructor'' = Inl TypeError"
  by (simp add: highlightCode_def get_property_constructor)

text \<open>
  C7, as stated, fails: the tag \<open>PYTHON\<close> is not a key of the keyword table, and on the
  code \<open>def\<close> the classifier wraps the word in a keyword span, which the escape, string,
  comment and number passes do not: the table is read at the lower case of the tag.
\<close>

theorem highlightCode_upper_case_tag:
  \<open>map_of keywords_table ''PYTHON'' = None
   \<and> highlightCode ''def'' ''PYTHON'' = Inr ''<span class="code-keyword">def</span>''
   \<and> number_pass (comment_pass (string_pass (escapeHtml ''def''))) = ''def''\<close>
proof (intro conjI)
  show "map_of keywords_table ''PYTHON'' = None"
    by (simp only: eval_simps cong: if_weak_cong list.case_cong_weak option.case_cong_weak)
  show \<open>highlightCode ''def'' ''PYTHON'' = Inr ''<span class="code-keyword">def</span>''\<close>
    by (simp only: eval_simps cong: if_weak_cong list.case_cong_weak option.case_cong_weak)
  show "number_pass (comment_pass (string_pass (escapeHtml ''def''))) = ''def''"
    by (simp only: eval_simps cong: if_weak_cong list.case_cong_weak option.case_cong_weak)
qed

text \<open>
  C7, amended. For every code and every tag whose lower case is neither a key of the
  keyword table nor a name inherited from \<open>Object.prototype\<close>, the output is what the
  escape, string, comment and number passes give: the keyword pass adds nothing.
\<close>

theorem highlightCode_unlisted_tag:
  assumes "map_of keywords_table (toLowerCase language) = None"
    and "toLowerCase language \<notin> set object_prototype_names"
  shows "highlightCode code language =
    Inr (number_pass (comment_pass (string_pass (escapeHtml code))))"
  using assms by (simp add: highlightCode_def get_property_def)

theorem highlightCode_unlisted_tag_witness:
  \<open>map_of keywords_table (toLowerCase ''Rust'') = None
   \<and> toLowerCase ''Rust'' \<notin> set object_prototype_names
   \<and> highlightCode ''let x = 1;'' ''Rust'' = Inr ''let x = <span class="code-number">1</span>;''\<close>
proof -
  have k: "map_of keywords_table (toLowerCase ''Rust'') = None"
    by (simp only: eval_simps cong: if_weak_cong list.case_cong_weak option.case_cong_weak)
  have n: "toLowerCase ''Rust'' \<notin> set object_prototype_names"
    by (simp only: eval_simps cong: if_weak_cong list.case_cong_weak option.case_cong_weak)
  have p: \<open>number_pass (comment_pass (string_pass (escapeHtml ''let x = 1;''))) =
      ''let x = <span class="code-number">1</span>;''\<close>
    by (simp only: eval_simps cong: if_weak_cong list.case_cong_weak option.case_cong_weak)
  from highlightCode_unlisted_tag [OF k n, of "''let x = 1;''"] k n p show ?thesis
    by simp
qed

text \<open>
  The tag \<open>constructor\<close> is not a key of the table either; there the classifier throws
  (see C6), where the four passes give the numeral in a number span.
\<close>

lemma highlightCode_unlisted_constructor:
  \<open>map_of keywords_table ''constructor'' = None
   \<and> highlightCode ''7'' ''constructor'' = Inl TypeError
   \<and> number_pass (comment_pass (string_pass (escapeHtml ''7''))) =
       ''<span class="code-number">7</span>''\<close>
proof (intro conjI)
  show "map_of keywords_table ''constructor'' = None"
    by (simp only: eval_simps cong: if_weak_cong list.case_cong_weak option.case_cong_weak)
  show "highlightCode ''7'' ''constructor'' = Inl TypeError"
    by (simp add: highlightCode_def get_property_constructor)
  show \<open>number_pass (comment_pass (string_pass (escapeHtml ''7''))) =
      ''<span class="code-number">7</span>''\<close>
    by (simp only: eval_simps cong: if_weak_cong list.case_cong_weak option.case_cong_weak)
qed

text \<open>
  C10. The classifier reads the tag through \<open>toLowerCase\<close> only, so a tag and its lower
  case give the same result.
\<close>

theorem highlightCode_tag_case: "highlightCode code t = highlightCode code (toLowerCase t)"
  by (simp add: highlightCode_def toLowerCase_idem)

theorem highlightCode_tag_case_witness:
  "highlightCode ''if x'' ''PYTHON'' = highlightCode ''if x'' ''python''"
  using highlightCode_tag_case [of "''if x''" "''PYTHON''"]
  by (simp add: toLowerCase_def lower_char_def upper_letters_def lower_letters_def
      latin1_upper_def latin1_lower_def)

section \<open>Angle brackets in the output\<close>




text \<open>
  For every language, the angle brackets of the output still come from inserted span tags
  alone.
\<close>

lemma highlightCode_angles_inserted:
  assumes "highlightCode code language = Inr out"
  shows "spans_inserted (escapeHtml code) out
    \<and> escapeHtml code = concat (map escape_char code)
    \<and> CHR ''<'' \<notin> set (escapeHtml code) \<and> CHR ''>'' \<notin> set (escapeHtml code)"
  using assms
  by (simp add: highlightCode_inserted escapeHtml_chars [symmetric] escapeHtml_no_lt
      escapeHtml_no_gt)

section \<open>The error boundary catches\<close>

text \<open>
  C8. When the children throw while the boundary is in its no-error state, the boundary
  catches the error: the error panel is shown in place of the output, the state has
  \<open>hasError\<close> set and the error is logged. The retry action clears \<open>hasError\<close>, and the
  next rendering shows the children's output again.
\<close>

theorem boundary_catches:
  "\<not> hasError st \<Longrightarrow>
     (case render_boundary st console (Inl e) of
        (st', console', out) \<Rightarrow>
          out = Shown ErrorPanel \<and> hasError st' \<and> console' = componentDidCatch e console
          \<and> hasError (try_again st') = False
          \<and> render_boundary (try_again st') console' (Inr v)
              = (try_again st', console', Shown (Children v)))"
  by (simp add: render_boundary_def render_children_def render_def getDerivedStateFromError_def
      try_again_def Let_def)

theorem boundary_catches_witness:
  "\<not> hasError initial_boundary
   \<and> render_boundary initial_boundary [] (Inl ''boom'' :: string + string)
       = (\<lparr>hasError = True, error = Some ''boom''\<rparr>, [''Markdown rendering error: boom''],
          Shown ErrorPanel)
   \<and> try_again \<lparr>hasError = True, error = Some ''boom''\<rparr>
       = \<lparr>hasError = False, error = Some ''boom''\<rparr>"
  using boundary_catches [where st = initial_boundary and console = "[]" and e = "''boom''"
      and v = "''ok''"]
  by (simp add: initial_boundary_def render_boundary_def render_children_def render_def
      getDerivedStateFromError_def componentDidCatch_def try_again_def Let_def)

end
